theory Spec2Isabelle
  imports Main "HOL-Library.AList"
begin

section \<open>Application assembly of \<^verbatim>\<open>superdesk/factory/app.py\<close>\<close>

text \<open>
  The module builds one application object from configuration layers and a list of
  feature modules. Python exceptions are values here: an operation that mutates state
  returns \<open>Done s\<close> with the state it leaves, or \<open>Raised e s\<close> with the exception
  and the state as it stands when the exception leaves the function (Python keeps the
  mutations made before a raise).
\<close>

datatype py_error =
    KeyError
  | ValueError
  | TypeError
  | AttributeError
  | ImportError
  | AssertionError
  | DuplicateKeyError
  | SystemExit string
  | OtherError string

datatype 's result = Done 's | Raised py_error 's

text \<open>
  A Python \<open>dict\<close> is an association list with one entry per key: \<open>map_of\<close> reads
  it, \<open>AList.update\<close> is \<open>d[k] = v\<close> (in place for a key that is present, appended
  otherwise), and the list order is the iteration order.
\<close>

type_synonym ('k, 'v) dict = "('k \<times> 'v) list"

datatype pyval =
    PNone
  | PBool bool
  | PInt int
  | PStr string
  | PList "pyval list"
  | PDict "(string \<times> pyval) list"
  | PObj string

text \<open>Python truthiness, as \<open>if x:\<close> and \<open>x or y\<close> test it.\<close>

fun truthy :: "pyval \<Rightarrow> bool" where
  "truthy PNone = False"
| "truthy (PBool b) = b"
| "truthy (PInt i) = (i \<noteq> 0)"
| "truthy (PStr s) = (s \<noteq> [])"
| "truthy (PList xs) = (xs \<noteq> [])"
| "truthy (PDict d) = (d \<noteq> [])"
| "truthy (PObj n) = True"

subsection \<open>Module installer (\<open>install_app\<close> and the two loops of \<open>get_app\<close>)\<close>

text \<open>
  \<open>importlib.import_module\<close> is a parameter: it gives the module or the exception the
  import raises. Of a module only \<open>hasattr(app_module, "init_app")\<close> and the hook itself
  matter: \<open>init_app\<close> is \<open>None\<close> when the module has no hook. A hook receives the
  application and may mutate it or raise. The set \<open>installed\<close> is local to \<open>get_app\<close>,
  so a hook cannot reach it. \<open>hook_calls\<close> is the trace of the hook invocations
  \<open>app_module.init_app(app)\<close>, in call order.
\<close>

record 'a app_module =
  init_app :: "('a \<Rightarrow> 'a result) option"

record 'a installer =
  installed :: "string set"
  app :: 'a
  hook_calls :: "string list"

definition install_app ::
  "(string \<Rightarrow> py_error + 'a app_module) \<Rightarrow> string \<Rightarrow> 'a installer \<Rightarrow> 'a installer result" where
  "install_app import_module module_name st =
     (if module_name \<in> installed st then Done st
      else
        let st1 = st\<lparr>installed := insert module_name (installed st)\<rparr> in
        case import_module module_name of
          Inl e \<Rightarrow> Raised e st1
        | Inr app_module \<Rightarrow>
            (case init_app app_module of
               None \<Rightarrow> Done st1
             | Some hook \<Rightarrow>
                 (let st2 = st1\<lparr>hook_calls := hook_calls st1 @ [module_name]\<rparr> in
                  case hook (app st2) of
                    Done a \<Rightarrow> Done (st2\<lparr>app := a\<rparr>)
                  | Raised e a \<Rightarrow> Raised e (st2\<lparr>app := a\<rparr>))))"

text \<open>\<open>for module_name in ...: install_app(module_name)\<close>; an exception ends the loop.\<close>

fun install_apps ::
  "(string \<Rightarrow> py_error + 'a app_module) \<Rightarrow> string list \<Rightarrow> 'a installer \<Rightarrow> 'a installer result" where
  "install_apps import_module [] st = Done st"
| "install_apps import_module (module_name # rest) st =
     (case install_app import_module module_name st of
        Done st' \<Rightarrow> install_apps import_module rest st'
      | Raised e st' \<Rightarrow> Raised e st')"

text \<open>
  Lines 251 to 265 of \<open>get_app\<close>: \<open>installed = set()\<close>, then the loop over
  \<open>app.config.get("CORE_APPS", [])\<close>, then the loop over
  \<open>app.config.get("INSTALLED_APPS", [])\<close>.
\<close>

definition config_list :: "string list option \<Rightarrow> string list" where
  "config_list v = (case v of None \<Rightarrow> [] | Some xs \<Rightarrow> xs)"

definition install_modules ::
  "(string \<Rightarrow> py_error + 'a app_module) \<Rightarrow> string list option \<Rightarrow> string list option \<Rightarrow> 'a
    \<Rightarrow> 'a installer result" where
  "install_modules import_module CORE_APPS INSTALLED_APPS a =
     (let st = \<lparr>installed = {}, app = a, hook_calls = []\<rparr> in
      case install_apps import_module (config_list CORE_APPS) st of
        Done st' \<Rightarrow> install_apps import_module (config_list INSTALLED_APPS) st'
      | Raised e st' \<Rightarrow> Raised e st')"

text \<open>Example modules for the closed instances below: the hook counts its own runs.\<close>

definition counting_module :: "nat app_module" where
  "counting_module = \<lparr>init_app = Some (\<lambda>n. Done (Suc n))\<rparr>"

definition example_import :: "string \<Rightarrow> py_error + nat app_module" where
  "example_import module_name =
     (if module_name = ''apps.missing'' then Inl ImportError
      else if module_name = ''apps.plain'' then Inr \<lparr>init_app = None\<rparr>
      else Inr counting_module)"

subsection \<open>Configuration resolver (the head of \<open>get_app\<close>, lines 171 to 184)\<close>

text \<open>
  \<open>str.isupper\<close> on ASCII names: at least one cased character and no lower-case one.
\<close>

definition is_upper_char :: "char \<Rightarrow> bool" where
  "is_upper_char c = (c \<in> set ''ABCDEFGHIJKLMNOPQRSTUVWXYZ'')"

definition is_lower_char :: "char \<Rightarrow> bool" where
  "is_lower_char c = (c \<in> set ''abcdefghijklmnopqrstuvwxyz'')"

definition isupper :: "string \<Rightarrow> bool" where
  "isupper s = (list_ex is_upper_char s \<and> \<not> list_ex is_lower_char s)"

text \<open>\<open>d.update(other)\<close>: every entry of \<open>other\<close> is stored in \<open>d\<close>, in order.\<close>

definition dict_update :: "('k, 'v) dict \<Rightarrow> ('k, 'v) dict \<Rightarrow> ('k, 'v) dict" where
  "dict_update d other = fold (\<lambda>(k, v) acc. AList.update k v acc) other d"

text \<open>\<open>d.setdefault(k, v)\<close>, for the dict it leaves.\<close>

definition setdefault :: "'k \<Rightarrow> 'v \<Rightarrow> ('k, 'v) dict \<Rightarrow> ('k, 'v) dict" where
  "setdefault k v d = (case map_of d k of None \<Rightarrow> d @ [(k, v)] | Some _ \<Rightarrow> d)"

text \<open>
  Flask's \<open>Config.from_object\<close> (a library call): every attribute of the object whose
  name is upper case is stored under its name. The object is given by its attributes.
\<close>

definition from_object :: "(string, pyval) dict \<Rightarrow> (string, pyval) dict \<Rightarrow> (string, pyval) dict" where
  "from_object obj cfg = dict_update cfg (filter (\<lambda>(k, v). isupper k) obj)"

text \<open>
  The \<open>config\<close> argument of \<open>get_app\<close>: \<open>None\<close>, a mapping, or any other object, for
  which \<open>dict.update\<close> raises \<open>TypeError\<close> and the handler loads it with
  \<open>from_object\<close>. \<open>config or {}\<close> turns \<open>None\<close> and the empty mapping into \<open>{}\<close>.
  \<open>config_object\<close> is \<open>None\<close> when it is not given.
\<close>

datatype config_arg =
    ConfigNone
  | ConfigMapping "(string, pyval) dict"
  | ConfigObject "(string, pyval) dict"

definition get_app_config ::
  "(string, pyval) dict \<Rightarrow> string \<Rightarrow> (string, pyval) dict option \<Rightarrow> config_arg
    \<Rightarrow> (string, pyval) dict" where
  "get_app_config default_settings abs_path config_object config =
     (let app_config = from_object default_settings [];
          app_config = setdefault ''APP_ABSPATH'' (PStr abs_path) app_config;
          app_config = setdefault ''DOMAIN'' (PDict []) app_config;
          app_config = setdefault ''SOURCES'' (PDict []) app_config;
          app_config = (case config_object of
                          None \<Rightarrow> app_config
                        | Some obj \<Rightarrow> from_object obj app_config)
      in case config of
           ConfigNone \<Rightarrow> dict_update app_config []
         | ConfigMapping m \<Rightarrow> dict_update app_config m
         | ConfigObject obj \<Rightarrow> from_object obj app_config)"

subsection \<open>Storage backend selector (\<open>get_media_storage_class\<close>)\<close>

text \<open>
  \<open>s.rsplit(".", 1)\<close>: the text before the last dot and the text after it, or the
  whole string alone when it has no dot.
\<close>

definition rsplit_dot :: "string \<Rightarrow> string list" where
  "rsplit_dot s =
     (if CHR ''.'' \<in> set s
      then [rev (tl (dropWhile (\<lambda>c. c \<noteq> CHR ''.'') (rev s))),
            rev (takeWhile (\<lambda>c. c \<noteq> CHR ''.'') (rev s))]
      else [s])"

text \<open>
  What \<open>getattr(module, class_name)\<close> finds: a class, with its name and whether
  \<open>issubclass(klass, MediaStorage)\<close> holds, or an object that is no class (for which
  \<open>issubclass\<close> raises \<open>TypeError\<close>). \<open>import_module\<close> is a parameter giving the
  module's attributes or the exception of the import.
\<close>

datatype module_attr = ClassObj string bool | NonClassObj

datatype media_storage_class = ProxyMediaStorage | LoadedClass string

definition get_media_storage_class ::
  "(string \<Rightarrow> py_error + (string, module_attr) dict) \<Rightarrow> (string, pyval) dict \<Rightarrow> bool
    \<Rightarrow> py_error + media_storage_class" where
  "get_media_storage_class import_module app_config use_provider_config =
     (case (if use_provider_config then map_of app_config ''MEDIA_STORAGE_PROVIDER'' else None) of
        None \<Rightarrow> Inr ProxyMediaStorage
      | Some provider \<Rightarrow>
          if \<not> truthy provider then Inr ProxyMediaStorage
          else
            (case provider of
               PStr s \<Rightarrow>
                 (case rsplit_dot s of
                    [module_name, class_name] \<Rightarrow>
                      (case import_module module_name of
                         Inl e \<Rightarrow> Inl e
                       | Inr module \<Rightarrow>
                           (case map_of module class_name of
                              None \<Rightarrow> Inl AttributeError
                            | Some NonClassObj \<Rightarrow> Inl TypeError
                            | Some (ClassObj klass extends_MediaStorage) \<Rightarrow>
                                if \<not> extends_MediaStorage
                                then Inl (SystemExit
                                  ''Invalid setting MEDIA_STORAGE_PROVIDER. Class must extend eve.io.media.MediaStorage'')
                                else Inr (LoadedClass klass)))
                  | _ \<Rightarrow> Inl ValueError)
             | _ \<Rightarrow> Inr ProxyMediaStorage))"

definition example_storage_import :: "string \<Rightarrow> py_error + (string, module_attr) dict" where
  "example_storage_import module_name =
     (if module_name = ''superdesk.storage''
      then Inr [(''AmazonMediaStorage'', ClassObj ''AmazonMediaStorage'' True),
                (''Helper'', ClassObj ''Helper'' False),
                (''logger'', NonClassObj)]
      else Inl ImportError)"

subsection \<open>Resource registry: the domain set, \<open>item_scope\<close> and the catalog merge\<close>

text \<open>
  The part of the application configuration these operations read and write. A key that
  may be missing is an \<open>option\<close> field, and reading a missing key raises \<open>KeyError\<close>.
  A resource definition holds its schema, its datasource with the output projection, and
  the index declarations read by \<open>init_indexes\<close>.
\<close>

type_synonym key_list = "(string \<times> int) list"

datatype index_value =
    Keys key_list
  | KeysOptions key_list "(string, pyval) dict"

record datasource =
  projection :: "(string, int) dict option"

record resource_config =
  schema :: "(string, pyval) dict option"
  datasource :: "datasource option"
  mongo_indexes__init :: "(string, index_value) dict option"

record scope_entry =
  scope_schema :: "(string, pyval) dict option"

record app_config =
  cfg_DOMAIN :: "(string, resource_config) dict option"
  cfg_VERSIONS :: "string option"
  cfg_item_scope :: "(string, scope_entry) dict option"

text \<open>
  The inner function of \<open>item_scope\<close>: the assertion, then
  \<open>DOMAIN[resource]["schema"].update(schema)\<close>, then for every key of the fragment
  \<open>DOMAIN[resource]["datasource"]["projection"][key] = 1\<close>. The fragment is not empty
  past the assertion, so the lookups of the loop are made at least once, after the schema
  was updated.
\<close>

definition update_resource_schema ::
  "(string, pyval) dict \<Rightarrow> string \<Rightarrow> app_config \<Rightarrow> app_config result" where
  "update_resource_schema fragment resource cfg =
     (if fragment = [] then Raised AssertionError cfg
      else
        case cfg_DOMAIN cfg of
          None \<Rightarrow> Raised KeyError cfg
        | Some domain \<Rightarrow>
            (case map_of domain resource of
               None \<Rightarrow> Raised KeyError cfg
             | Some rc \<Rightarrow>
                 (case schema rc of
                    None \<Rightarrow> Raised KeyError cfg
                  | Some sch \<Rightarrow>
                      (let rc1 = rc\<lparr>schema := Some (dict_update sch fragment)\<rparr>;
                           cfg1 = cfg\<lparr>cfg_DOMAIN := Some (AList.update resource rc1 domain)\<rparr>
                       in case datasource rc1 of
                            None \<Rightarrow> Raised KeyError cfg1
                          | Some ds \<Rightarrow>
                              (case projection ds of
                                 None \<Rightarrow> Raised KeyError cfg1
                               | Some proj \<Rightarrow>
                                   (let proj1 = fold (\<lambda>key acc. AList.update key 1 acc)
                                                  (map fst fragment) proj;
                                        rc2 = rc1\<lparr>datasource := Some (ds\<lparr>projection := Some proj1\<rparr>)\<rparr>
                                    in Done (cfg\<lparr>cfg_DOMAIN :=
                                               Some (AList.update resource rc2 domain)\<rparr>)))))))"

text \<open>
  The loop of \<open>item_scope\<close> over the target resources: the resource itself, then its
  versioned counterpart \<open>resource + config["VERSIONS"]\<close> when the domain has it.
\<close>

fun item_scope_loop :: "(string, pyval) dict \<Rightarrow> string list \<Rightarrow> app_config \<Rightarrow> app_config result" where
  "item_scope_loop fragment [] cfg = Done cfg"
| "item_scope_loop fragment (resource # rest) cfg =
     (case update_resource_schema fragment resource cfg of
        Raised e cfg1 \<Rightarrow> Raised e cfg1
      | Done cfg1 \<Rightarrow>
          (case cfg_VERSIONS cfg1 of
             None \<Rightarrow> Raised KeyError cfg1
           | Some versions \<Rightarrow>
               (case cfg_DOMAIN cfg1 of
                  None \<Rightarrow> Raised KeyError cfg1
                | Some domain \<Rightarrow>
                    if (resource @ versions) \<in> set (map fst domain)
                    then (case update_resource_schema fragment (resource @ versions) cfg1 of
                            Raised e cfg2 \<Rightarrow> Raised e cfg2
                          | Done cfg2 \<Rightarrow> item_scope_loop fragment rest cfg2)
                    else item_scope_loop fragment rest cfg1)))"

definition item_scope_targets :: "string list" where
  "item_scope_targets = [''archive'', ''archive_autosave'', ''published'', ''archived'']"

definition item_scope ::
  "string \<Rightarrow> (string, pyval) dict option \<Rightarrow> app_config \<Rightarrow> app_config result" where
  "item_scope name schema_arg cfg =
     (let scopes = (case cfg_item_scope cfg of None \<Rightarrow> [] | Some d \<Rightarrow> d);
          cfg1 = cfg\<lparr>cfg_item_scope :=
                   Some (AList.update name \<lparr>scope_schema = schema_arg\<rparr> scopes)\<rparr>
      in case schema_arg of
           None \<Rightarrow> Done cfg1
         | Some fragment \<Rightarrow> item_scope_loop fragment item_scope_targets cfg1)"

text \<open>
  The end of \<open>get_app\<close>, lines 267 to 270: \<open>app.config.setdefault("DOMAIN", {})\<close>, then
  every resource of the catalog \<open>superdesk.DOMAIN\<close> that the domain does not have is
  registered. Eve's \<open>register_resource\<close> is a library method: it stores the definition
  under the name; what Eve does further with the new entry (defaults, validation, URL
  rules) is not part of this module.
\<close>

definition register_resource :: "string \<Rightarrow> resource_config \<Rightarrow> app_config \<Rightarrow> app_config" where
  "register_resource resource settings cfg =
     cfg\<lparr>cfg_DOMAIN := Some (AList.update resource settings
                               (case cfg_DOMAIN cfg of None \<Rightarrow> [] | Some d \<Rightarrow> d))\<rparr>"

fun register_catalog ::
  "(string, resource_config) dict \<Rightarrow> string list \<Rightarrow> app_config \<Rightarrow> app_config" where
  "register_catalog catalog [] cfg = cfg"
| "register_catalog catalog (resource # rest) cfg =
     (case map_of catalog resource of
        None \<Rightarrow> register_catalog catalog rest cfg
      | Some settings \<Rightarrow>
          if resource \<notin> set (map fst (case cfg_DOMAIN cfg of None \<Rightarrow> [] | Some d \<Rightarrow> d))
          then register_catalog catalog rest (register_resource resource settings cfg)
          else register_catalog catalog rest cfg)"

definition merge_catalog :: "(string, resource_config) dict \<Rightarrow> app_config \<Rightarrow> app_config" where
  "merge_catalog catalog cfg =
     (let cfg1 = (case cfg_DOMAIN cfg of None \<Rightarrow> cfg\<lparr>cfg_DOMAIN := Some []\<rparr> | Some _ \<Rightarrow> cfg)
      in register_catalog catalog (map fst catalog) cfg1)"

text \<open>
  Reading the domain: the definition of a resource; whether a resource has a schema and
  a datasource projection to extend; and whether a field is in the schema with a given
  rule and in the projection with the marker 1.
\<close>

definition domain_lookup :: "app_config \<Rightarrow> string \<Rightarrow> resource_config option" where
  "domain_lookup cfg resource =
     (case cfg_DOMAIN cfg of None \<Rightarrow> None | Some d \<Rightarrow> map_of d resource)"

definition resource_ready :: "app_config \<Rightarrow> string \<Rightarrow> bool" where
  "resource_ready cfg resource =
     (case domain_lookup cfg resource of
        None \<Rightarrow> False
      | Some rc \<Rightarrow>
          schema rc \<noteq> None \<and>
          (case datasource rc of None \<Rightarrow> False | Some ds \<Rightarrow> projection ds \<noteq> None))"

definition has_field :: "app_config \<Rightarrow> string \<Rightarrow> string \<Rightarrow> pyval \<Rightarrow> bool" where
  "has_field cfg resource x rule =
     (case domain_lookup cfg resource of
        None \<Rightarrow> False
      | Some rc \<Rightarrow>
          (case schema rc of None \<Rightarrow> False | Some sch \<Rightarrow> map_of sch x = Some rule) \<and>
          (case datasource rc of
             None \<Rightarrow> False
           | Some ds \<Rightarrow>
               (case projection ds of None \<Rightarrow> False | Some proj \<Rightarrow> map_of proj x = Some 1)))"

subsection \<open>Index manager (\<open>SuperdeskEve.init_indexes\<close>)\<close>

text \<open>
  Eve's \<open>create_index\<close> is a parameter: on the store it leaves the store, or raises.
  The state is the store and the log. \<open>logger.warning\<close> appends a warning with its
  message, \<open>logger.exception(err)\<close> appends the error.
\<close>

datatype log_record = LogWarning string | LogException py_error

record 's index_state =
  store :: 's
  log :: "log_record list"

type_synonym 's create_index_fn =
  "'s \<Rightarrow> string \<Rightarrow> string \<Rightarrow> key_list \<Rightarrow> (string, pyval) dict \<Rightarrow> 's result"

text \<open>
  The arguments an index declaration gives \<open>create_index\<close>: a tuple is unpacked into
  keys and options, a bare value is the keys with \<open>{}\<close> as options, and
  \<open>index_options.setdefault("background", True)\<close> completes the options. For a
  tuple the dict is the declaration's own, so the default also stays in the
  configuration; \<open>init_indexes\<close> does not read it again.
\<close>

definition index_arguments :: "index_value \<Rightarrow> key_list \<times> (string, pyval) dict" where
  "index_arguments value =
     (let (list_of_keys, index_options) =
            (case value of
               KeysOptions ks opts \<Rightarrow> (ks, opts)
             | Keys ks \<Rightarrow> (ks, []))
      in (list_of_keys, setdefault ''background'' (PBool True) index_options))"

text \<open>The loop over \<open>mongo_indexes.items()\<close> of one resource.\<close>

fun init_resource_indexes ::
  "'s create_index_fn \<Rightarrow> bool \<Rightarrow> string \<Rightarrow> (string, index_value) dict \<Rightarrow> 's index_state
    \<Rightarrow> 's index_state result" where
  "init_resource_indexes create_index ignore_duplicate_keys resource [] st = Done st"
| "init_resource_indexes create_index ignore_duplicate_keys resource ((name, value) # rest) st =
     (let (list_of_keys, index_options) = index_arguments value
      in case create_index (store st) resource name list_of_keys index_options of
           Done s \<Rightarrow>
             init_resource_indexes create_index ignore_duplicate_keys resource rest
               (st\<lparr>store := s\<rparr>)
         | Raised e s \<Rightarrow>
             if e = KeyError then
               init_resource_indexes create_index ignore_duplicate_keys resource rest
                 (st\<lparr>store := s,
                     log := log st @ [LogWarning (''resource config missing for '' @ resource)]\<rparr>)
             else if e = DuplicateKeyError then
               (let st1 = st\<lparr>store := s, log := log st @ [LogException e]\<rparr> in
                if \<not> ignore_duplicate_keys then Raised e st1
                else init_resource_indexes create_index ignore_duplicate_keys resource rest st1)
             else Raised e (st\<lparr>store := s\<rparr>))"

text \<open>The loop over \<open>self.config["DOMAIN"].items()\<close>.\<close>

fun init_domain_indexes ::
  "'s create_index_fn \<Rightarrow> bool \<Rightarrow> (string, resource_config) dict \<Rightarrow> 's index_state
    \<Rightarrow> 's index_state result" where
  "init_domain_indexes create_index ignore_duplicate_keys [] st = Done st"
| "init_domain_indexes create_index ignore_duplicate_keys ((resource, rc) # rest) st =
     (case mongo_indexes__init rc of
        None \<Rightarrow> init_domain_indexes create_index ignore_duplicate_keys rest st
      | Some mongo_indexes \<Rightarrow>
          if mongo_indexes = []
          then init_domain_indexes create_index ignore_duplicate_keys rest st
          else
            (case init_resource_indexes create_index ignore_duplicate_keys resource mongo_indexes st of
               Done st1 \<Rightarrow> init_domain_indexes create_index ignore_duplicate_keys rest st1
             | Raised e st1 \<Rightarrow> Raised e st1))"

definition init_indexes ::
  "'s create_index_fn \<Rightarrow> bool \<Rightarrow> app_config \<Rightarrow> 's index_state \<Rightarrow> 's index_state result" where
  "init_indexes create_index ignore_duplicate_keys cfg st =
     (case cfg_DOMAIN cfg of
        None \<Rightarrow> Raised KeyError st
      | Some domain \<Rightarrow> init_domain_indexes create_index ignore_duplicate_keys domain st)"

subsection \<open>Locale resolver (\<open>get_locale\<close>)\<close>

text \<open>\<open>s.replace("-", "_")\<close>.\<close>

definition replace_hyphen :: "string \<Rightarrow> string" where
  "replace_hyphen s = map (\<lambda>c. if c = CHR ''-'' then CHR ''_'' else c) s"

text \<open>
  Babel's \<open>parse_locale\<close> is a parameter: \<open>None\<close> when it returns (its result is not
  used), \<open>Some e\<close> when it raises \<open>e\<close>. The language preference and the configured
  default are strings, as the calls of \<open>replace\<close> need them. \<open>user\<close> is \<open>g.user\<close>,
  \<open>None\<close> when the request context has none, and \<open>DEFAULT_LANGUAGE\<close> is
  \<open>None\<close> when the configuration has no such key.
\<close>

definition get_locale ::
  "(string \<Rightarrow> py_error option) \<Rightarrow> string option \<Rightarrow> (string, string) dict option
    \<Rightarrow> py_error + string" where
  "get_locale parse_locale DEFAULT_LANGUAGE g_user =
     (let default_language = (case DEFAULT_LANGUAGE of None \<Rightarrow> ''en'' | Some d \<Rightarrow> d);
          user = (case g_user of None \<Rightarrow> [] | Some u \<Rightarrow> u);
          user_language = (case map_of user ''language'' of
                             None \<Rightarrow> default_language
                           | Some l \<Rightarrow> l)
      in case parse_locale (replace_hyphen user_language) of
           None \<Rightarrow> Inr (replace_hyphen user_language)
         | Some e \<Rightarrow>
             if e = ValueError then Inr (replace_hyphen default_language)
             else Inl e)"

text \<open>
  Babel's \<open>parse_locale\<close> on ASCII identifiers, for the closed instances below: the
  identifier is cut at the first \<open>.\<close> and at the first \<open>@\<close>, split at \<open>_\<close>, and
  read as language, optional script, optional territory and optional variant; anything
  left over, or a language that is not alphabetic, is a \<open>ValueError\<close>.
\<close>

fun split_on :: "char \<Rightarrow> string \<Rightarrow> string list" where
  "split_on sep [] = [[]]"
| "split_on sep (c # cs) =
     (if c = sep then [] # split_on sep cs
      else (case split_on sep cs of
              [] \<Rightarrow> [[c]]
            | p # ps \<Rightarrow> (c # p) # ps))"

definition is_digit_char :: "char \<Rightarrow> bool" where
  "is_digit_char c = (c \<in> set ''0123456789'')"

definition is_alpha_char :: "char \<Rightarrow> bool" where
  "is_alpha_char c = (is_upper_char c \<or> is_lower_char c)"

definition isalpha :: "string \<Rightarrow> bool" where
  "isalpha s = (s \<noteq> [] \<and> list_all is_alpha_char s)"

definition isdigit :: "string \<Rightarrow> bool" where
  "isdigit s = (s \<noteq> [] \<and> list_all is_digit_char s)"

definition drop_script :: "string list \<Rightarrow> string list" where
  "drop_script parts =
     (case parts of
        p # ps \<Rightarrow> if length p = 4 \<and> isalpha p then ps else parts
      | [] \<Rightarrow> parts)"

definition drop_territory :: "string list \<Rightarrow> string list" where
  "drop_territory parts =
     (case parts of
        p # ps \<Rightarrow>
          if length p = 2 \<and> isalpha p then ps
          else if length p = 3 \<and> isdigit p then ps
          else parts
      | [] \<Rightarrow> parts)"

definition drop_variant :: "string list \<Rightarrow> string list" where
  "drop_variant parts =
     (case parts of
        p # ps \<Rightarrow>
          if (length p = 4 \<and> is_digit_char (hd p)) \<or> (length p \<ge> 5 \<and> is_alpha_char (hd p))
          then butlast parts else parts
      | [] \<Rightarrow> parts)"

definition babel_parse_locale :: "string \<Rightarrow> py_error option" where
  "babel_parse_locale identifier =
     (let ident = takeWhile (\<lambda>c. c \<noteq> CHR ''@'') (takeWhile (\<lambda>c. c \<noteq> CHR ''.'') identifier)
      in case split_on CHR ''_'' ident of
           [] \<Rightarrow> Some ValueError
         | lang # parts \<Rightarrow>
             if \<not> isalpha lang then Some ValueError
             else if drop_variant (drop_territory (drop_script parts)) \<noteq> [] then Some ValueError
             else None)"

subsection \<open>Error translator (\<open>set_error_handlers\<close>)\<close>

text \<open>
  A handler's result is the body and the status it hands to \<open>send_response\<close>. Of a
  \<open>SuperdeskError\<close> the handler reads \<open>status_code\<close> (\<open>None\<close> when unspecified)
  and \<open>to_dict()\<close>.
\<close>

record superdesk_error =
  message :: string
  status_code :: "int option"

definition status_value :: "int option \<Rightarrow> pyval" where
  "status_value sc = (case sc of None \<Rightarrow> PNone | Some c \<Rightarrow> PInt c)"

text \<open>
  Modelled from the spec: \<open>SuperdeskError.to_dict\<close> of \<^verbatim>\<open>superdesk/errors.py\<close> is
  not among the sources. The specification has it serialize the error's structured
  fields, and gives for status 404 and message "not found" the fields \<open>code: 404\<close> and
  \<open>error: "not found"\<close>.
\<close>

definition to_dict :: "superdesk_error \<Rightarrow> (string, pyval) dict" where
  "to_dict error = [(''code'', status_value (status_code error)), (''error'', PStr (message error))]"

definition client_error_handler :: "superdesk_error \<Rightarrow> (string, pyval) dict \<times> int" where
  "client_error_handler error =
     (let error_dict = to_dict error;
          error_dict = AList.update ''internal_error'' (status_value (status_code error)) error_dict;
          status = (case status_code error of
                      None \<Rightarrow> 422
                    | Some c \<Rightarrow> if truthy (PInt c) then c else 422)
      in (error_dict, status))"

definition server_forbidden_handler :: "pyval \<Rightarrow> (string, pyval) dict \<times> int" where
  "server_forbidden_handler response = ([(''code'', PInt 403), (''error'', response)], 403)"

text \<open>The argument is \<open>str(error)\<close> of the assertion failure.\<close>

definition assert_error_handler :: "string \<Rightarrow> (string, pyval) dict \<times> int" where
  "assert_error_handler str_error =
     ([(''code'', PInt 400), (''error'', PStr (if str_error \<noteq> [] then str_error else ''assert''))],
      400)"

subsection \<open>Example configurations for the closed instances\<close>

definition example_resource :: resource_config where
  "example_resource =
     \<lparr>schema = Some [(''headline'', PDict [(''type'', PStr ''string'')])],
      datasource = Some \<lparr>projection = Some [(''headline'', 1)]\<rparr>,
      mongo_indexes__init = None\<rparr>"

definition example_config :: app_config where
  "example_config =
     \<lparr>cfg_DOMAIN = Some [(''archive'', example_resource), (''archive_versions'', example_resource),
                         (''archive_autosave'', example_resource), (''published'', example_resource),
                         (''archived'', example_resource)],
      cfg_VERSIONS = Some ''_versions'',
      cfg_item_scope = None\<rparr>"

definition example_create_index :: "string list create_index_fn" where
  "example_create_index s resource name list_of_keys index_options =
     (if resource = ''stale'' then Raised KeyError s
      else if name = ''unique_id'' then Raised DuplicateKeyError s
      else Done (s @ [name]))"

definition example_index_config :: app_config where
  "example_index_config =
     \<lparr>cfg_DOMAIN = Some
        [(''stale'', \<lparr>schema = None, datasource = None,
                      mongo_indexes__init = Some [(''name_1'', Keys [(''name'', 1)])]\<rparr>),
         (''users'', \<lparr>schema = None, datasource = None,
                      mongo_indexes__init = Some
                        [(''unique_id'', KeysOptions [(''unique_id'', 1)] [(''unique'', PBool True)]),
                         (''email_1'', Keys [(''email'', 1)])]\<rparr>)],
      cfg_VERSIONS = Some ''_versions'', cfg_item_scope = None\<rparr>"

text \<open>
  The relation between the configuration before and after a step of \<open>item_scope\<close>
  that the proofs carry along: same version marker, same resources present, the same
  resources with a schema and a projection, and no resource loses the field \<open>x\<close>.
\<close>

definition config_step :: "string \<Rightarrow> pyval \<Rightarrow> app_config \<Rightarrow> app_config \<Rightarrow> bool" where
  "config_step x rule cfg c =
     (cfg_VERSIONS c = cfg_VERSIONS cfg \<and>
      (\<forall>r. (domain_lookup c r = None) = (domain_lookup cfg r = None)) \<and>
      (\<forall>r. resource_ready c r = resource_ready cfg r) \<and>
      (\<forall>r. has_field cfg r x rule \<longrightarrow> has_field c r x rule))"

section \<open>Properties of the module installer\<close>

lemma install_app_installed:
  "install_app imp m st = Done st' \<Longrightarrow> m \<in> installed st' \<and> installed st \<subseteq> installed st'"
  by (auto simp: install_app_def Let_def split: if_splits sum.splits option.splits result.splits)

lemma install_apps_installed:
  "install_apps imp ms st = Done st' \<Longrightarrow> set ms \<subseteq> installed st' \<and> installed st \<subseteq> installed st'"
proof (induction ms arbitrary: st)
  case Nil
  then show ?case by simp
next
  case (Cons m ms)
  from Cons.prems obtain st1 where
    s1: "install_app imp m st = Done st1" and s2: "install_apps imp ms st1 = Done st'"
    by (auto split: result.splits)
  from install_app_installed [OF s1] Cons.IH [OF s2] show ?case by auto
qed

lemma install_apps_append:
  "install_apps imp (xs @ ys) st =
     (case install_apps imp xs st of
        Done st' \<Rightarrow> install_apps imp ys st'
      | Raised e st' \<Rightarrow> Raised e st')"
  by (induction xs arbitrary: st) (auto split: result.splits)

text \<open>
  C1. Installing a module name that is already in the installed set returns at once with
  the state untouched. So when a first install of a module with a hook succeeds, a second
  install of the same name changes nothing: the installed set has the same size, the
  application is the one the single hook run left, and the hook trace has gained exactly
  one call of that module.
\<close>

theorem install_app_idempotent:
  "(module_name \<in> installed st \<longrightarrow> install_app imp module_name st = Done st) \<and>
   (install_app imp module_name st = Done st1 \<longrightarrow>
      install_app imp module_name st1 = Done st1 \<and>
      card (installed st1) = card (insert module_name (installed st))) \<and>
   (module_name \<notin> installed st \<and> imp module_name = Inr md \<and> init_app md = Some hook \<and>
    hook (app st) = Done a \<longrightarrow>
      (\<exists>st1. install_app imp module_name st = Done st1 \<and>
             install_app imp module_name st1 = Done st1 \<and>
             app st1 = a \<and>
             hook_calls st1 = hook_calls st @ [module_name] \<and>
             count_list (hook_calls st1) module_name = Suc (count_list (hook_calls st) module_name)))"
proof (intro conjI impI)
  assume "module_name \<in> installed st"
  then show "install_app imp module_name st = Done st"
    by (simp add: install_app_def)
next
  assume h: "install_app imp module_name st = Done st1"
  from install_app_installed [OF h] have "module_name \<in> installed st1" by simp
  then show "install_app imp module_name st1 = Done st1"
    by (simp add: install_app_def)
next
  assume h: "install_app imp module_name st = Done st1"
  then have "installed st1 = insert module_name (installed st)"
    by (auto simp: install_app_def Let_def split: if_splits sum.splits option.splits result.splits)
  then show "card (installed st1) = card (insert module_name (installed st))" by simp
next
  assume h: "module_name \<notin> installed st \<and> imp module_name = Inr md \<and> init_app md = Some hook \<and>
    hook (app st) = Done a"
  let ?st1 = "st\<lparr>installed := insert module_name (installed st),
                 hook_calls := hook_calls st @ [module_name], app := a\<rparr>"
  from h have 1: "install_app imp module_name st = Done ?st1"
    by (simp add: install_app_def Let_def)
  have 2: "install_app imp module_name ?st1 = Done ?st1"
    by (simp add: install_app_def)
  from 1 2 show "\<exists>st1. install_app imp module_name st = Done st1 \<and>
             install_app imp module_name st1 = Done st1 \<and>
             app st1 = a \<and>
             hook_calls st1 = hook_calls st @ [module_name] \<and>
             count_list (hook_calls st1) module_name = Suc (count_list (hook_calls st) module_name)"
    by simp
qed

theorem install_app_idempotent_witness:
  "\<exists>st1. install_app example_import ''apps.news''
           \<lparr>installed = {''apps.plain''}, app = 0, hook_calls = []\<rparr> = Done st1 \<and>
         install_app example_import ''apps.news'' st1 = Done st1 \<and>
         app st1 = 1 \<and> hook_calls st1 = [''apps.news''] \<and>
         count_list (hook_calls st1) ''apps.news'' = 1"
  using install_app_idempotent
    [of "''apps.news''" "\<lparr>installed = {''apps.plain''}, app = 0::nat, hook_calls = []\<rparr>"
        example_import undefined counting_module "\<lambda>n. Done (Suc n)" "Suc 0"]
  by (simp add: example_import_def counting_module_def)

text \<open>
  C9. The two loops install the core list and then the extension list, each in list
  order: a run that completes has first completed the installs of all core modules, which
  are then in the installed set, before the first extension module. And at every position
  of the combined list, the installs of all earlier modules have completed, and their
  names are in the installed set, when the module at that position is installed (and its
  hook, if any, runs).
\<close>

theorem install_modules_order:
  assumes run: "install_modules imp CORE_APPS INSTALLED_APPS a = Done st'"
    and split: "config_list CORE_APPS @ config_list INSTALLED_APPS = pre @ m # post"
  shows "(\<exists>stc. install_apps imp (config_list CORE_APPS) \<lparr>installed = {}, app = a, hook_calls = []\<rparr> = Done stc \<and>
            set (config_list CORE_APPS) \<subseteq> installed stc \<and>
            install_apps imp (config_list INSTALLED_APPS) stc = Done st') \<and>
         (\<exists>st1 st2. install_apps imp pre \<lparr>installed = {}, app = a, hook_calls = []\<rparr> = Done st1 \<and>
            set pre \<subseteq> installed st1 \<and>
            install_app imp m st1 = Done st2 \<and>
            install_apps imp post st2 = Done st')"
proof
  let ?st0 = "\<lparr>installed = {}, app = a, hook_calls = []\<rparr>"
  from run obtain stc where
    c: "install_apps imp (config_list CORE_APPS) ?st0 = Done stc" and
    e: "install_apps imp (config_list INSTALLED_APPS) stc = Done st'"
    by (auto simp: install_modules_def Let_def split: result.splits)
  from install_apps_installed [OF c] c e
  show "\<exists>stc. install_apps imp (config_list CORE_APPS) ?st0 = Done stc \<and>
            set (config_list CORE_APPS) \<subseteq> installed stc \<and>
            install_apps imp (config_list INSTALLED_APPS) stc = Done st'"
    by blast
  from c e have "install_apps imp (config_list CORE_APPS @ config_list INSTALLED_APPS) ?st0 = Done st'"
    by (simp add: install_apps_append)
  with split have all: "install_apps imp (pre @ m # post) ?st0 = Done st'" by simp
  then obtain st1 where
    p: "install_apps imp pre ?st0 = Done st1" and r: "install_apps imp (m # post) st1 = Done st'"
    by (auto simp: install_apps_append split: result.splits)
  from r obtain st2 where
    i: "install_app imp m st1 = Done st2" and q: "install_apps imp post st2 = Done st'"
    by (auto split: result.splits)
  from install_apps_installed [OF p] p i q
  show "\<exists>st1 st2. install_apps imp pre ?st0 = Done st1 \<and>
            set pre \<subseteq> installed st1 \<and>
            install_app imp m st1 = Done st2 \<and>
            install_apps imp post st2 = Done st'"
    by blast
qed

theorem install_modules_order_witness:
  "\<exists>st1 st2. install_apps example_import [''apps.plain'', ''apps.news'']
               \<lparr>installed = {}, app = 0, hook_calls = []\<rparr> = Done st1 \<and>
     {''apps.plain'', ''apps.news''} \<subseteq> installed st1 \<and>
     install_app example_import ''apps.desks'' st1 = Done st2 \<and>
     install_apps example_import [''apps.news''] st2 =
       Done \<lparr>installed = {''apps.plain'', ''apps.news'', ''apps.desks''}, app = 2,
             hook_calls = [''apps.news'', ''apps.desks'']\<rparr>"
proof -
  have run: "install_modules example_import (Some [''apps.plain'', ''apps.news''])
               (Some [''apps.desks'', ''apps.news'']) 0 =
             Done \<lparr>installed = {''apps.plain'', ''apps.news'', ''apps.desks''}, app = 2,
                   hook_calls = [''apps.news'', ''apps.desks'']\<rparr>"
    by (simp add: install_modules_def install_app_def example_import_def counting_module_def
        config_list_def Let_def insert_commute)
  have split: "config_list (Some [''apps.plain'', ''apps.news'']) @
               config_list (Some [''apps.desks'', ''apps.news'']) =
               [''apps.plain'', ''apps.news''] @ ''apps.desks'' # [''apps.news'']"
    by (simp add: config_list_def)
  from install_modules_order [OF run split] show ?thesis by simp
qed

section \<open>Properties of the configuration resolver and the resource registry\<close>

lemma map_of_dict_update:
  "distinct (map fst other) \<Longrightarrow> map_of (dict_update d other) = map_of d ++ map_of other"
proof (induction other arbitrary: d)
  case Nil
  then show ?case by (simp add: dict_update_def)
next
  case (Cons kv other)
  obtain k v where kv: "kv = (k, v)" by (cases kv)
  from Cons.prems kv have d: "distinct (map fst other)" and nk: "k \<notin> fst ` set other" by auto
  have "map_of (dict_update d (kv # other)) = map_of (dict_update (AList.update k v d) other)"
    by (simp add: dict_update_def kv)
  also have "\<dots> = (map_of d)(k \<mapsto> v) ++ map_of other"
    by (simp only: Cons.IH [OF d] update_conv')
  also have "\<dots> = map_of d ++ map_of (kv # other)"
  proof
    fix y
    from nk have "map_of other k = None" by (simp add: map_of_eq_None_iff)
    then show "((map_of d)(k \<mapsto> v) ++ map_of other) y = (map_of d ++ map_of (kv # other)) y"
      by (auto simp: map_add_def kv split: option.splits)
  qed
  finally show ?case .
qed

text \<open>
  C2. A key of the explicit override mapping has the mapping's value in the resolved
  configuration, whatever the defaults and the config object hold for it: the mapping is
  the last layer applied. The mapping is a dict, so its keys are distinct.
\<close>

theorem override_precedence:
  assumes "distinct (map fst override)"
    and "map_of override key = Some v"
  shows "map_of (get_app_config default_settings abs_path config_object (ConfigMapping override)) key
         = Some v"
  using assms
  by (simp add: get_app_config_def Let_def map_of_dict_update split: option.splits)

theorem override_precedence_witness:
  "map_of (get_app_config [(''DEBUG'', PBool False), (''SERVER_NAME'', PStr ''localhost'')] ''/opt''
            (Some [(''DEBUG'', PBool True), (''lower'', PInt 1)])
            (ConfigMapping [(''DEBUG'', PBool False), (''SERVER_NAME'', PStr ''example.org'')]))
     ''DEBUG'' = Some (PBool False) \<and>
   map_of (from_object [(''DEBUG'', PBool True), (''lower'', PInt 1)] []) ''DEBUG'' = Some (PBool True)"
  using override_precedence
    [of "[(''DEBUG'', PBool False), (''SERVER_NAME'', PStr ''example.org'')]" "''DEBUG''" "PBool False"
        "[(''DEBUG'', PBool False), (''SERVER_NAME'', PStr ''localhost'')]" "''/opt''"
        "Some [(''DEBUG'', PBool True), (''lower'', PInt 1)]"]
  by (simp add: from_object_def dict_update_def isupper_def is_upper_char_def is_lower_char_def)

lemma register_catalog_lookup:
  "domain_lookup (register_catalog catalog ks cfg) r =
     (case domain_lookup cfg r of
        Some rc \<Rightarrow> Some rc
      | None \<Rightarrow> if r \<in> set ks then map_of catalog r else None)"
proof (induction ks arbitrary: cfg)
  case Nil
  then show ?case by (simp split: option.splits)
next
  case (Cons k ks)
  show ?case
  proof (cases "map_of catalog k")
    case None
    then show ?thesis by (auto simp: Cons.IH split: option.splits)
  next
    case (Some settings)
    show ?thesis
    proof (cases "domain_lookup cfg k")
      case None
      then have nk: "k \<notin> set (map fst (case cfg_DOMAIN cfg of None \<Rightarrow> [] | Some d \<Rightarrow> d))"
        by (auto simp: domain_lookup_def map_of_eq_None_iff split: option.splits)
      have look: "domain_lookup (register_resource k settings cfg) r =
            (if r = k then Some settings else domain_lookup cfg r)"
        by (auto simp: domain_lookup_def register_resource_def update_conv' split: option.splits)
      from Some None nk look show ?thesis
        by (auto simp: Cons.IH split: option.splits)
    next
      case (Some rc)
      then have "k \<in> set (map fst (case cfg_DOMAIN cfg of None \<Rightarrow> [] | Some d \<Rightarrow> d))"
        by (force simp: domain_lookup_def image_iff dest: map_of_SomeD split: option.splits)
      with Some \<open>map_of catalog k = Some settings\<close> show ?thesis
        by (auto simp: Cons.IH split: option.splits)
    qed
  qed
qed

text \<open>
  C3. After the catalog merge, a resource that the domain had before still has the
  definition it had, and a resource the domain did not have has the catalog's
  definition, if the catalog has one. The instance below is the domain with "R" of
  schema \<open>{a: 1}\<close> and a catalog entry for "R" of schema \<open>{b: 1}\<close>.
\<close>

theorem merge_catalog_keeps_configured:
  "domain_lookup (merge_catalog catalog cfg) resource =
     (case domain_lookup cfg resource of
        Some rc \<Rightarrow> Some rc
      | None \<Rightarrow> map_of catalog resource)"
proof -
  let ?cfg1 = "case cfg_DOMAIN cfg of None \<Rightarrow> cfg\<lparr>cfg_DOMAIN := Some []\<rparr> | Some _ \<Rightarrow> cfg"
  have same: "domain_lookup ?cfg1 resource = domain_lookup cfg resource"
    by (simp add: domain_lookup_def split: option.splits)
  have "resource \<notin> set (map fst catalog) \<Longrightarrow> map_of catalog resource = None"
    by (simp add: map_of_eq_None_iff)
  then show ?thesis
    by (auto simp: merge_catalog_def Let_def register_catalog_lookup same
        simp del: set_map split: option.splits)
qed

theorem merge_catalog_keeps_configured_example:
  "domain_lookup
     (merge_catalog
        [(''R'', \<lparr>schema = Some [(''b'', PInt 1)], datasource = None, mongo_indexes__init = None\<rparr>),
         (''S'', \<lparr>schema = Some [(''c'', PInt 1)], datasource = None, mongo_indexes__init = None\<rparr>)]
        \<lparr>cfg_DOMAIN = Some [(''R'', \<lparr>schema = Some [(''a'', PInt 1)], datasource = None,
                                     mongo_indexes__init = None\<rparr>)],
          cfg_VERSIONS = Some ''_versions'', cfg_item_scope = None\<rparr>) ''R''
   = Some \<lparr>schema = Some [(''a'', PInt 1)], datasource = None, mongo_indexes__init = None\<rparr>"
  using merge_catalog_keeps_configured
    [of "[(''R'', \<lparr>schema = Some [(''b'', PInt 1)], datasource = None, mongo_indexes__init = None\<rparr>),
         (''S'', \<lparr>schema = Some [(''c'', PInt 1)], datasource = None, mongo_indexes__init = None\<rparr>)]"
        "\<lparr>cfg_DOMAIN = Some [(''R'', \<lparr>schema = Some [(''a'', PInt 1)], datasource = None,
                                     mongo_indexes__init = None\<rparr>)],
          cfg_VERSIONS = Some ''_versions'', cfg_item_scope = None\<rparr>" "''R''"]
  by (simp add: domain_lookup_def)

section \<open>Properties of the storage selector, the locale resolver and the error translator\<close>

text \<open>
  C6. When the provider setting is a dotted path that resolves to a class which is not a
  subclass of \<open>MediaStorage\<close>, the selection raises \<open>SystemExit\<close> with the
  message of the invalid setting. When the provider configuration is not to be used, or
  no provider is configured, the selection returns \<open>ProxyMediaStorage\<close>.
\<close>

theorem media_storage_selection:
  "(use_provider_config \<and> map_of app_config ''MEDIA_STORAGE_PROVIDER'' = Some (PStr s) \<and> s \<noteq> [] \<and>
    rsplit_dot s = [module_name, class_name] \<and> import_module module_name = Inr module \<and>
    map_of module class_name = Some (ClassObj klass False) \<longrightarrow>
      get_media_storage_class import_module app_config use_provider_config =
        Inl (SystemExit
          ''Invalid setting MEDIA_STORAGE_PROVIDER. Class must extend eve.io.media.MediaStorage'')) \<and>
   (\<not> use_provider_config \<or> map_of app_config ''MEDIA_STORAGE_PROVIDER'' = None \<longrightarrow>
      get_media_storage_class import_module app_config use_provider_config = Inr ProxyMediaStorage)"
  by (auto simp: get_media_storage_class_def)

theorem media_storage_selection_witness:
  "get_media_storage_class example_storage_import
     [(''MEDIA_STORAGE_PROVIDER'', PStr ''superdesk.storage.Helper'')] True =
     Inl (SystemExit
       ''Invalid setting MEDIA_STORAGE_PROVIDER. Class must extend eve.io.media.MediaStorage'') \<and>
   get_media_storage_class example_storage_import
     [(''MEDIA_STORAGE_PROVIDER'', PStr ''superdesk.storage.Helper'')] False = Inr ProxyMediaStorage \<and>
   get_media_storage_class example_storage_import [(''DEBUG'', PBool True)] True = Inr ProxyMediaStorage"
proof -
  have r: "rsplit_dot ''superdesk.storage.Helper'' = [''superdesk.storage'', ''Helper'']"
    by (simp add: rsplit_dot_def)
  have i: "example_storage_import ''superdesk.storage'' =
      Inr [(''AmazonMediaStorage'', ClassObj ''AmazonMediaStorage'' True),
           (''Helper'', ClassObj ''Helper'' False), (''logger'', NonClassObj)]"
    by (simp add: example_storage_import_def)
  from media_storage_selection
    [of True "[(''MEDIA_STORAGE_PROVIDER'', PStr ''superdesk.storage.Helper'')]"
        "''superdesk.storage.Helper''" "''superdesk.storage''" "''Helper''" example_storage_import
        "[(''AmazonMediaStorage'', ClassObj ''AmazonMediaStorage'' True),
           (''Helper'', ClassObj ''Helper'' False), (''logger'', NonClassObj)]" "''Helper''"]
    media_storage_selection
    [of False "[(''MEDIA_STORAGE_PROVIDER'', PStr ''superdesk.storage.Helper'')]" _ _ _ example_storage_import]
    media_storage_selection
    [of True "[(''DEBUG'', PBool True)]" _ _ _ example_storage_import]
    r i
  show ?thesis by simp
qed

lemma babel_parse_locale_raises:
  "babel_parse_locale s = None \<or> babel_parse_locale s = Some ValueError"
  by (simp add: babel_parse_locale_def Let_def split: list.splits)

text \<open>
  C7. With a \<open>parse_locale\<close> that returns or raises \<open>ValueError\<close>, as Babel's does
  on a string, the resolver never raises: it returns the language preference with hyphens
  replaced by underscores when that form parses, and the configured default (or "en"),
  normalized the same way, when the preference is absent or does not parse.
\<close>

theorem get_locale_resolves:
  assumes "\<And>s. parse_locale s = None \<or> parse_locale s = Some ValueError"
  shows "get_locale parse_locale DEFAULT_LANGUAGE g_user =
     Inr (replace_hyphen
       (let default_language = (case DEFAULT_LANGUAGE of None \<Rightarrow> ''en'' | Some d \<Rightarrow> d) in
        case map_of (case g_user of None \<Rightarrow> [] | Some u \<Rightarrow> u) ''language'' of
          None \<Rightarrow> default_language
        | Some l \<Rightarrow>
            if parse_locale (replace_hyphen l) = None then l else default_language))"
proof -
  have c: "parse_locale s = Some e \<Longrightarrow> e = ValueError" for s e
    using assms [of s] by auto
  show ?thesis
    by (auto simp: get_locale_def Let_def dest: c split: option.splits)
qed

theorem get_locale_resolves_witness:
  "get_locale babel_parse_locale (Some ''de-DE'') (Some [(''language'', ''en-US'')]) = Inr ''en_US'' \<and>
   get_locale babel_parse_locale (Some ''de-DE'') (Some [(''language'', ''e1-US'')]) = Inr ''de_DE'' \<and>
   get_locale babel_parse_locale (Some ''de-DE'') (Some [(''name'', ''x'')]) = Inr ''de_DE'' \<and>
   get_locale babel_parse_locale None None = Inr ''en''"
proof -
  have p1: "babel_parse_locale ''en_US'' = None"
    by (simp add: babel_parse_locale_def isalpha_def isdigit_def is_alpha_char_def is_upper_char_def
        is_lower_char_def is_digit_char_def drop_script_def drop_territory_def drop_variant_def)
  have p2: "babel_parse_locale ''e1_US'' = Some ValueError"
    by (simp add: babel_parse_locale_def isalpha_def isdigit_def is_alpha_char_def is_upper_char_def
        is_lower_char_def is_digit_char_def drop_script_def drop_territory_def drop_variant_def)
  from get_locale_resolves [of babel_parse_locale "Some ''de-DE''" "Some [(''language'', ''en-US'')]",
      OF babel_parse_locale_raises]
    get_locale_resolves [of babel_parse_locale "Some ''de-DE''" "Some [(''language'', ''e1-US'')]",
      OF babel_parse_locale_raises]
    get_locale_resolves [of babel_parse_locale "Some ''de-DE''" "Some [(''name'', ''x'')]",
      OF babel_parse_locale_raises]
    get_locale_resolves [of babel_parse_locale None None, OF babel_parse_locale_raises]
    p1 p2
  show ?thesis by (simp add: replace_hyphen_def)
qed

text \<open>
  C8. For a \<open>SuperdeskError\<close> the handler returns the serialized fields with
  \<open>internal_error\<close> set to the error's status code, and as status that code, or 422
  when the code is unspecified (\<open>None\<close>, or 0, which \<open>or\<close> treats alike). For an
  assertion failure it returns status 400, code 400 and the failure's text, or "assert"
  when the text is empty.
\<close>

theorem error_envelope:
  "client_error_handler error =
     ([(''code'', status_value (status_code error)), (''error'', PStr (message error)),
       (''internal_error'', status_value (status_code error))],
      (case status_code error of None \<Rightarrow> 422 | Some c \<Rightarrow> if c = 0 then 422 else c)) \<and>
   assert_error_handler str_error =
     ([(''code'', PInt 400), (''error'', PStr (if str_error = [] then ''assert'' else str_error))], 400)"
  by (simp add: client_error_handler_def to_dict_def assert_error_handler_def split: option.splits)

theorem error_envelope_example:
  "client_error_handler \<lparr>message = ''not found'', status_code = Some 404\<rparr> =
     ([(''code'', PInt 404), (''error'', PStr ''not found''), (''internal_error'', PInt 404)], 404) \<and>
   client_error_handler \<lparr>message = ''invalid'', status_code = None\<rparr> =
     ([(''code'', PNone), (''error'', PStr ''invalid''), (''internal_error'', PNone)], 422) \<and>
   assert_error_handler [] = ([(''code'', PInt 400), (''error'', PStr ''assert'')], 400) \<and>
   assert_error_handler ''bad id'' = ([(''code'', PInt 400), (''error'', PStr ''bad id'')], 400)"
  using error_envelope [of "\<lparr>message = ''not found'', status_code = Some 404\<rparr>" "[]"]
    error_envelope [of "\<lparr>message = ''invalid'', status_code = None\<rparr>" "''bad id''"]
  by (simp add: status_value_def)

section \<open>Properties of \<open>item_scope\<close>\<close>

lemma config_step_refl: "config_step x rule cfg cfg"
  by (simp add: config_step_def)

lemma config_step_trans:
  "config_step x rule a b \<Longrightarrow> config_step x rule b c \<Longrightarrow> config_step x rule a c"
  by (simp add: config_step_def)

lemma map_of_projection_fold:
  "map_of (fold (\<lambda>key acc. AList.update key (1::int) acc) ks proj) x =
     (if x \<in> set ks then Some 1 else map_of proj x)"
  by (induction ks arbitrary: proj) (auto simp: update_conv')

lemma update_resource_schema_Done:
  assumes "update_resource_schema fragment r cfg = Done c"
  shows "\<exists>domain rc sch ds proj.
           fragment \<noteq> [] \<and> cfg_DOMAIN cfg = Some domain \<and> map_of domain r = Some rc \<and>
           schema rc = Some sch \<and> datasource rc = Some ds \<and> projection ds = Some proj \<and>
           c = cfg\<lparr>cfg_DOMAIN := Some (AList.update r
                 (rc\<lparr>schema := Some (dict_update sch fragment),
                     datasource := Some (ds\<lparr>projection :=
                       Some (fold (\<lambda>key acc. AList.update key 1 acc) (map fst fragment) proj)\<rparr>)\<rparr>)
                 domain)\<rparr>"
  using assms
  by (auto simp: update_resource_schema_def Let_def split: if_splits option.splits)

lemma update_resource_schema_ready:
  assumes "fragment \<noteq> []" and "resource_ready cfg r"
  shows "\<exists>c. update_resource_schema fragment r cfg = Done c"
  using assms
  by (auto simp: update_resource_schema_def resource_ready_def domain_lookup_def Let_def
      split: option.splits)

lemma update_resource_schema_step:
  assumes d: "distinct (map fst fragment)" and x: "map_of fragment x = Some rule"
    and u: "update_resource_schema fragment r cfg = Done c"
  shows "config_step x rule cfg c \<and> has_field c r x rule"
proof -
  from update_resource_schema_Done [OF u] obtain domain rc sch ds proj where
    dom: "cfg_DOMAIN cfg = Some domain" and rc: "map_of domain r = Some rc" and
    sch: "schema rc = Some sch" and ds: "datasource rc = Some ds" and
    proj: "projection ds = Some proj" and
    c: "c = cfg\<lparr>cfg_DOMAIN := Some (AList.update r
                 (rc\<lparr>schema := Some (dict_update sch fragment),
                     datasource := Some (ds\<lparr>projection :=
                       Some (fold (\<lambda>key acc. AList.update key 1 acc) (map fst fragment) proj)\<rparr>)\<rparr>)
                 domain)\<rparr>"
    by blast
  let ?rc2 = "rc\<lparr>schema := Some (dict_update sch fragment),
                 datasource := Some (ds\<lparr>projection :=
                   Some (fold (\<lambda>key acc. AList.update key 1 acc) (map fst fragment) proj)\<rparr>)\<rparr>"
  have look: "domain_lookup c r' = (if r' = r then Some ?rc2 else domain_lookup cfg r')" for r'
    by (simp add: c dom domain_lookup_def update_conv')
  have old: "domain_lookup cfg r = Some rc"
    by (simp add: dom rc domain_lookup_def)
  from x have xin: "x \<in> set (map fst fragment)"
    by (force simp: image_iff dest: map_of_SomeD)
  have f1: "map_of (dict_update sch fragment) x = Some rule"
    by (simp add: map_of_dict_update [OF d] map_add_def x)
  have f2: "map_of (fold (\<lambda>key acc. AList.update key (1::int) acc) (map fst fragment) proj) x = Some 1"
    using xin by (simp only: map_of_projection_fold if_True)
  have hf: "has_field c r x rule"
    by (simp add: has_field_def look f1 f2)
  have rd: "resource_ready c r"
    by (simp add: resource_ready_def look)
  have v: "cfg_VERSIONS c = cfg_VERSIONS cfg" by (simp add: c)
  have n: "(domain_lookup c r' = None) = (domain_lookup cfg r' = None)" for r'
    by (simp add: look old)
  have rd0: "resource_ready cfg r"
    by (simp add: resource_ready_def old sch ds proj)
  have r1: "resource_ready c r' = resource_ready cfg r'" for r'
    using rd rd0 by (cases "r' = r") (simp_all add: resource_ready_def look)
  have h1: "has_field cfg r' x rule \<Longrightarrow> has_field c r' x rule" for r'
    using hf by (cases "r' = r") (simp_all add: has_field_def look)
  from v n r1 h1 hf show ?thesis by (simp add: config_step_def)
qed

lemma item_scope_loop_propagates:
  assumes d: "distinct (map fst fragment)" and x: "map_of fragment x = Some rule"
  shows "cfg_VERSIONS cfg = Some v \<Longrightarrow>
     (\<forall>r\<in>set rs. resource_ready cfg r \<and>
        (domain_lookup cfg (r @ v) \<noteq> None \<longrightarrow> resource_ready cfg (r @ v))) \<Longrightarrow>
     \<exists>c. item_scope_loop fragment rs cfg = Done c \<and> config_step x rule cfg c \<and>
         (\<forall>r\<in>set rs. has_field c r x rule \<and>
            (domain_lookup cfg (r @ v) \<noteq> None \<longrightarrow> has_field c (r @ v) x rule))"
proof (induction rs arbitrary: cfg)
  case Nil
  then show ?case by (simp add: config_step_refl)
next
  case (Cons r rs)
  from x have ne: "fragment \<noteq> []" by auto
  from Cons.prems have rr: "resource_ready cfg r" by simp
  from update_resource_schema_ready [OF ne rr] obtain c1 where
    u1: "update_resource_schema fragment r cfg = Done c1" by blast
  from update_resource_schema_step [OF d x u1] have
    s1: "config_step x rule cfg c1" and h1: "has_field c1 r x rule" by simp_all
  from s1 Cons.prems have v1: "cfg_VERSIONS c1 = Some v" by (simp add: config_step_def)
  from update_resource_schema_Done [OF u1] obtain domain1 where
    dom1: "cfg_DOMAIN c1 = Some domain1" by auto
  have mem: "((r @ v) \<in> set (map fst domain1)) = (domain_lookup c1 (r @ v) \<noteq> None)"
    by (simp add: domain_lookup_def dom1 map_of_eq_None_iff)
  have same: "(domain_lookup c1 (r @ v) \<noteq> None) = (domain_lookup cfg (r @ v) \<noteq> None)"
    using s1 by (simp add: config_step_def)
  show ?case
  proof (cases "domain_lookup cfg (r @ v) \<noteq> None")
    case False
    with mem same have nm: "(r @ v) \<notin> set (map fst domain1)" by simp
    have pre: "\<forall>r\<in>set rs. resource_ready c1 r \<and>
        (domain_lookup c1 (r @ v) \<noteq> None \<longrightarrow> resource_ready c1 (r @ v))"
      using Cons.prems s1 by (simp add: config_step_def)
    from Cons.IH [OF v1 pre] obtain c where
      l: "item_scope_loop fragment rs c1 = Done c" and s: "config_step x rule c1 c" and
      h: "\<forall>r\<in>set rs. has_field c r x rule \<and>
            (domain_lookup c1 (r @ v) \<noteq> None \<longrightarrow> has_field c (r @ v) x rule)"
      by blast
    have run: "item_scope_loop fragment (r # rs) cfg = Done c"
      using u1 v1 dom1 nm l by (simp del: set_map)
    have hr: "has_field c r x rule" using h1 s by (simp add: config_step_def)
    have eq: "(domain_lookup c1 r' \<noteq> None) = (domain_lookup cfg r' \<noteq> None)" for r'
      using s1 by (simp add: config_step_def)
    have h': "\<forall>r\<in>set rs. has_field c r x rule \<and>
            (domain_lookup cfg (r @ v) \<noteq> None \<longrightarrow> has_field c (r @ v) x rule)"
      using h by (simp only: eq)
    from run config_step_trans [OF s1 s] hr h' False show ?thesis by simp
  next
    case True
    with mem same have m: "(r @ v) \<in> set (map fst domain1)" by simp
    from True Cons.prems have "resource_ready cfg (r @ v)" by simp
    with s1 have rv: "resource_ready c1 (r @ v)" by (simp add: config_step_def)
    from update_resource_schema_ready [OF ne rv] obtain c2 where
      u2: "update_resource_schema fragment (r @ v) c1 = Done c2" by blast
    from update_resource_schema_step [OF d x u2] have
      s2: "config_step x rule c1 c2" and h2: "has_field c2 (r @ v) x rule" by simp_all
    have s12: "config_step x rule cfg c2" by (rule config_step_trans [OF s1 s2])
    from s12 Cons.prems have v2: "cfg_VERSIONS c2 = Some v" by (simp add: config_step_def)
    have pre: "\<forall>r\<in>set rs. resource_ready c2 r \<and>
        (domain_lookup c2 (r @ v) \<noteq> None \<longrightarrow> resource_ready c2 (r @ v))"
      using Cons.prems s12 by (simp add: config_step_def)
    from Cons.IH [OF v2 pre] obtain c where
      l: "item_scope_loop fragment rs c2 = Done c" and s: "config_step x rule c2 c" and
      h: "\<forall>r\<in>set rs. has_field c r x rule \<and>
            (domain_lookup c2 (r @ v) \<noteq> None \<longrightarrow> has_field c (r @ v) x rule)"
      by blast
    have run: "item_scope_loop fragment (r # rs) cfg = Done c"
      using u1 v1 dom1 m u2 l by (simp del: set_map)
    have hr: "has_field c r x rule" using h1 s2 s by (simp add: config_step_def)
    have hrv: "has_field c (r @ v) x rule" using h2 s by (simp add: config_step_def)
    have eq: "(domain_lookup c2 r' \<noteq> None) = (domain_lookup cfg r' \<noteq> None)" for r'
      using s12 by (simp add: config_step_def)
    have h': "\<forall>r\<in>set rs. has_field c r x rule \<and>
            (domain_lookup cfg (r @ v) \<noteq> None \<longrightarrow> has_field c (r @ v) x rule)"
      using h by (simp only: eq)
    from run config_step_trans [OF s12 s] hr hrv h' show ?thesis by simp
  qed
qed

lemma item_scope_completes:
  assumes "distinct (map fst fragment)" and "map_of fragment x = Some rule"
    and "cfg_VERSIONS cfg = Some versions"
    and "\<forall>r\<in>set item_scope_targets. resource_ready cfg r \<and>
           (domain_lookup cfg (r @ versions) \<noteq> None \<longrightarrow> resource_ready cfg (r @ versions))"
  shows "\<exists>cfg'. item_scope name (Some fragment) cfg = Done cfg' \<and>
           (\<forall>r\<in>set item_scope_targets. has_field cfg' r x rule \<and>
              (domain_lookup cfg (r @ versions) \<noteq> None \<longrightarrow> has_field cfg' (r @ versions) x rule))"
proof -
  let ?cfg1 = "cfg\<lparr>cfg_item_scope :=
     Some (AList.update name \<lparr>scope_schema = Some fragment\<rparr>
             (case cfg_item_scope cfg of None \<Rightarrow> [] | Some d \<Rightarrow> d))\<rparr>"
  have l: "domain_lookup ?cfg1 r = domain_lookup cfg r" for r
    by (simp add: domain_lookup_def)
  have rd: "resource_ready ?cfg1 r = resource_ready cfg r" for r
    by (simp add: resource_ready_def l)
  have v: "cfg_VERSIONS ?cfg1 = Some versions" using assms(3) by simp
  have pre: "\<forall>r\<in>set item_scope_targets. resource_ready ?cfg1 r \<and>
           (domain_lookup ?cfg1 (r @ versions) \<noteq> None \<longrightarrow> resource_ready ?cfg1 (r @ versions))"
    using assms(4) by (simp only: l rd)
  from item_scope_loop_propagates [OF assms(1) assms(2) v pre] obtain c where
    "item_scope_loop fragment item_scope_targets ?cfg1 = Done c" and
    "\<forall>r\<in>set item_scope_targets. has_field c r x rule \<and>
       (domain_lookup ?cfg1 (r @ versions) \<noteq> None \<longrightarrow> has_field c (r @ versions) x rule)"
    by blast
  then show ?thesis
    by (simp only: l) (auto simp: item_scope_def Let_def)
qed


lemma item_scope_loop_versions:
  assumes d: "distinct (map fst fragment)" and x: "map_of fragment x = Some rule"
    and l: "item_scope_loop fragment (r # rs) cfg = Done c"
  shows "\<exists>v. cfg_VERSIONS cfg = Some v"
proof -
  from l obtain c1 where u1: "update_resource_schema fragment r cfg = Done c1"
    by (auto split: result.splits)
  from update_resource_schema_step [OF d x u1] have "cfg_VERSIONS c1 = cfg_VERSIONS cfg"
    by (simp add: config_step_def)
  moreover from l u1 have "cfg_VERSIONS c1 \<noteq> None"
    by (auto split: option.splits)
  ultimately show ?thesis by auto
qed

lemma item_scope_loop_needs_ready:
  assumes d: "distinct (map fst fragment)" and x: "map_of fragment x = Some rule"
  shows "item_scope_loop fragment rs cfg = Done c \<Longrightarrow> cfg_VERSIONS cfg = Some v \<Longrightarrow>
     \<forall>r\<in>set rs. resource_ready cfg r \<and>
        (domain_lookup cfg (r @ v) \<noteq> None \<longrightarrow> resource_ready cfg (r @ v))"
proof (induction rs arbitrary: cfg)
  case Nil
  then show ?case by simp
next
  case (Cons r rs)
  from Cons.prems(1) obtain c1 where u1: "update_resource_schema fragment r cfg = Done c1"
    by (auto split: result.splits)
  from update_resource_schema_step [OF d x u1] have
    s1: "config_step x rule cfg c1" and h1: "has_field c1 r x rule" by simp_all
  from s1 Cons.prems(2) have v1: "cfg_VERSIONS c1 = Some v" by (simp add: config_step_def)
  from update_resource_schema_Done [OF u1] obtain domain1 where
    dom1: "cfg_DOMAIN c1 = Some domain1" by auto
  from h1 have "resource_ready c1 r"
    by (auto simp: has_field_def resource_ready_def split: option.splits)
  with s1 have rr: "resource_ready cfg r" by (simp add: config_step_def)
  have mem: "((r @ v) \<in> set (map fst domain1)) = (domain_lookup c1 (r @ v) \<noteq> None)"
    by (simp add: domain_lookup_def dom1 map_of_eq_None_iff)
  have eq1: "(domain_lookup c1 r' \<noteq> None) = (domain_lookup cfg r' \<noteq> None)" for r'
    using s1 by (simp add: config_step_def)
  have rd1: "resource_ready c1 r' = resource_ready cfg r'" for r'
    using s1 by (simp add: config_step_def)
  show ?case
  proof (cases "domain_lookup cfg (r @ v) \<noteq> None")
    case False
    with mem eq1 have nm: "(r @ v) \<notin> set (map fst domain1)" by simp
    from Cons.prems(1) u1 v1 dom1 nm have "item_scope_loop fragment rs c1 = Done c"
      by (simp del: set_map)
    from Cons.IH [OF this v1] have "\<forall>r\<in>set rs. resource_ready cfg r \<and>
        (domain_lookup cfg (r @ v) \<noteq> None \<longrightarrow> resource_ready cfg (r @ v))"
      by (simp only: eq1 rd1)
    with rr False show ?thesis by simp
  next
    case True
    with mem eq1 have m: "(r @ v) \<in> set (map fst domain1)" by simp
    from Cons.prems(1) u1 v1 dom1 m obtain c2 where
      u2: "update_resource_schema fragment (r @ v) c1 = Done c2" and
      l2: "item_scope_loop fragment rs c2 = Done c"
      by (auto simp del: set_map split: result.splits)
    from update_resource_schema_step [OF d x u2] have
      s2: "config_step x rule c1 c2" and h2: "has_field c2 (r @ v) x rule" by simp_all
    from h2 have "resource_ready c2 (r @ v)"
      by (auto simp: has_field_def resource_ready_def split: option.splits)
    with s2 rd1 have rv: "resource_ready cfg (r @ v)" by (simp add: config_step_def)
    have s12: "config_step x rule cfg c2" by (rule config_step_trans [OF s1 s2])
    from s12 Cons.prems(2) have v2: "cfg_VERSIONS c2 = Some v" by (simp add: config_step_def)
    have eq2: "(domain_lookup c2 r' \<noteq> None) = (domain_lookup cfg r' \<noteq> None)" for r'
      using s12 by (simp add: config_step_def)
    have rd2: "resource_ready c2 r' = resource_ready cfg r'" for r'
      using s12 by (simp add: config_step_def)
    from Cons.IH [OF l2 v2] have "\<forall>r\<in>set rs. resource_ready cfg r \<and>
        (domain_lookup cfg (r @ v) \<noteq> None \<longrightarrow> resource_ready cfg (r @ v))"
      by (simp only: eq2 rd2)
    with rr rv show ?thesis by simp
  qed
qed

text \<open>
  C5. Declaring a scope with a schema that has field \<open>x\<close> with rule \<open>rule\<close>: on
  a domain whose four target resources have a schema and a datasource projection (and
  whose versioned counterparts have them when they are in the domain) the call completes;
  and whenever the call completes, \<open>x\<close> is left with its rule in the schema and with
  the marker 1 in the projection of each target resource, and of each versioned
  counterpart (the name followed by the version marker) that the domain has.
\<close>

theorem item_scope_propagation:
  assumes d: "distinct (map fst fragment)" and x: "map_of fragment x = Some rule"
  shows
  "(cfg_VERSIONS cfg = Some versions \<and>
    (\<forall>r\<in>set item_scope_targets. resource_ready cfg r \<and>
       (domain_lookup cfg (r @ versions) \<noteq> None \<longrightarrow> resource_ready cfg (r @ versions))) \<longrightarrow>
      (\<exists>cfg1. item_scope name (Some fragment) cfg = Done cfg1 \<and>
         (\<forall>r\<in>set item_scope_targets. has_field cfg1 r x rule \<and>
            (domain_lookup cfg (r @ versions) \<noteq> None \<longrightarrow> has_field cfg1 (r @ versions) x rule)))) \<and>
   (item_scope name (Some fragment) cfg = Done cfg' \<longrightarrow>
      (\<exists>v. cfg_VERSIONS cfg = Some v \<and>
         (\<forall>r\<in>set item_scope_targets. has_field cfg' r x rule \<and>
            (domain_lookup cfg (r @ v) \<noteq> None \<longrightarrow> has_field cfg' (r @ v) x rule))))"
proof (intro conjI impI)
  assume "cfg_VERSIONS cfg = Some versions \<and>
    (\<forall>r\<in>set item_scope_targets. resource_ready cfg r \<and>
       (domain_lookup cfg (r @ versions) \<noteq> None \<longrightarrow> resource_ready cfg (r @ versions)))"
  then show "\<exists>cfg1. item_scope name (Some fragment) cfg = Done cfg1 \<and>
         (\<forall>r\<in>set item_scope_targets. has_field cfg1 r x rule \<and>
            (domain_lookup cfg (r @ versions) \<noteq> None \<longrightarrow> has_field cfg1 (r @ versions) x rule))"
    using item_scope_completes [OF d x, of cfg versions name] by blast
next
  assume run: "item_scope name (Some fragment) cfg = Done cfg'"
  let ?cfg1 = "cfg\<lparr>cfg_item_scope :=
     Some (AList.update name \<lparr>scope_schema = Some fragment\<rparr>
             (case cfg_item_scope cfg of None \<Rightarrow> [] | Some d \<Rightarrow> d))\<rparr>"
  from run have l: "item_scope_loop fragment item_scope_targets ?cfg1 = Done cfg'"
    by (simp add: item_scope_def Let_def)
  then obtain v where "cfg_VERSIONS ?cfg1 = Some v"
    using item_scope_loop_versions [OF d x, of "''archive''" _ ?cfg1 cfg']
    by (auto simp: item_scope_targets_def)
  then have v: "cfg_VERSIONS cfg = Some v" and v1: "cfg_VERSIONS ?cfg1 = Some v" by simp_all
  have lk: "domain_lookup ?cfg1 r = domain_lookup cfg r" for r
    by (simp add: domain_lookup_def)
  have rd: "resource_ready ?cfg1 r = resource_ready cfg r" for r
    by (simp add: resource_ready_def lk)
  from item_scope_loop_needs_ready [OF d x l v1]
  have pre: "\<forall>r\<in>set item_scope_targets. resource_ready cfg r \<and>
       (domain_lookup cfg (r @ v) \<noteq> None \<longrightarrow> resource_ready cfg (r @ v))"
    by (simp only: lk rd)
  from item_scope_completes [OF d x v pre, of name] run
  have "\<forall>r\<in>set item_scope_targets. has_field cfg' r x rule \<and>
            (domain_lookup cfg (r @ v) \<noteq> None \<longrightarrow> has_field cfg' (r @ v) x rule)"
    by auto
  with v show "\<exists>v. cfg_VERSIONS cfg = Some v \<and>
         (\<forall>r\<in>set item_scope_targets. has_field cfg' r x rule \<and>
            (domain_lookup cfg (r @ v) \<noteq> None \<longrightarrow> has_field cfg' (r @ v) x rule))"
    by blast
qed

theorem item_scope_propagation_witness:
  "\<exists>cfg'. item_scope ''planning'' (Some [(''slugline'', PDict [(''type'', PStr ''string'')])])
             example_config = Done cfg' \<and>
     has_field cfg' ''archive'' ''slugline'' (PDict [(''type'', PStr ''string'')]) \<and>
     has_field cfg' ''archive_versions'' ''slugline'' (PDict [(''type'', PStr ''string'')]) \<and>
     has_field cfg' ''archive_autosave'' ''slugline'' (PDict [(''type'', PStr ''string'')]) \<and>
     has_field cfg' ''published'' ''slugline'' (PDict [(''type'', PStr ''string'')]) \<and>
     has_field cfg' ''archived'' ''slugline'' (PDict [(''type'', PStr ''string'')])"
  using item_scope_propagation
    [of "[(''slugline'', PDict [(''type'', PStr ''string'')])]" "''slugline''"
        "PDict [(''type'', PStr ''string'')]" example_config "''_versions''" "''planning''"]
  by (simp add: example_config_def example_resource_def item_scope_targets_def
      resource_ready_def domain_lookup_def)

lemma update_resource_schema_item_scope:
  "update_resource_schema fragment resource cfg = Done c \<or>
   update_resource_schema fragment resource cfg = Raised e c \<Longrightarrow>
   cfg_item_scope c = cfg_item_scope cfg"
  by (auto simp: update_resource_schema_def Let_def split: if_splits option.splits)

lemma item_scope_loop_item_scope:
  "item_scope_loop fragment rs cfg = Done c \<or> item_scope_loop fragment rs cfg = Raised e c \<Longrightarrow>
   cfg_item_scope c = cfg_item_scope cfg"
proof (induction rs arbitrary: cfg)
  case Nil
  then show ?case by simp
next
  case (Cons r rs)
  show ?case
  proof (cases "update_resource_schema fragment r cfg")
    case (Raised e1 c1)
    with Cons.prems have "c = c1" by simp
    with Raised update_resource_schema_item_scope [of fragment r cfg c1 e1] show ?thesis by simp
  next
    case (Done c1)
    then have s1: "cfg_item_scope c1 = cfg_item_scope cfg"
      using update_resource_schema_item_scope [of fragment r cfg c1] by simp
    show ?thesis
    proof (cases "cfg_VERSIONS c1")
      case None
      with Done Cons.prems s1 show ?thesis by auto
    next
      case (Some v)
      show ?thesis
      proof (cases "cfg_DOMAIN c1")
        case None
        with Done Some Cons.prems s1 show ?thesis by auto
      next
        case (Some domain)
        show ?thesis
        proof (cases "(r @ v) \<in> set (map fst domain)")
          case False
          with Done \<open>cfg_VERSIONS c1 = Some v\<close> Some Cons.prems
          have "item_scope_loop fragment rs c1 = Done c \<or> item_scope_loop fragment rs c1 = Raised e c"
            by simp
          from Cons.IH [OF this] s1 show ?thesis by simp
        next
          case True
          show ?thesis
          proof (cases "update_resource_schema fragment (r @ v) c1")
            case (Raised e2 c2)
            with Done \<open>cfg_VERSIONS c1 = Some v\<close> Some True Cons.prems have "c = c2" by simp
            with Raised update_resource_schema_item_scope [of fragment "r @ v" c1 c2 e2] s1
            show ?thesis by simp
          next
            case (Done c2)
            then have s2: "cfg_item_scope c2 = cfg_item_scope c1"
              using update_resource_schema_item_scope [of fragment "r @ v" c1 c2] by simp
            from Done \<open>update_resource_schema fragment r cfg = Done c1\<close>
              \<open>cfg_VERSIONS c1 = Some v\<close> Some True Cons.prems
            have "item_scope_loop fragment rs c2 = Done c \<or> item_scope_loop fragment rs c2 = Raised e c"
              by simp
            from Cons.IH [OF this] s1 s2 show ?thesis by simp
          qed
        qed
      qed
    qed
  qed
qed

text \<open>
  C10. \<open>item_scope\<close> records the scope before it validates or touches a resource:
  whenever the call raises, the configuration it leaves has the scope under its name in
  the \<open>item_scope\<close> map. With an empty schema the assertion of the first target
  resource fires, and the configuration left is the one given with the scope recorded.
\<close>

theorem item_scope_recorded_on_failure:
  "(item_scope name schema_arg cfg = Raised e cfg' \<longrightarrow>
      (\<exists>scopes. cfg_item_scope cfg' = Some scopes \<and>
         map_of scopes name = Some \<lparr>scope_schema = schema_arg\<rparr>)) \<and>
   item_scope name (Some []) cfg =
     Raised AssertionError
       (cfg\<lparr>cfg_item_scope :=
          Some (AList.update name \<lparr>scope_schema = Some []\<rparr>
                  (case cfg_item_scope cfg of None \<Rightarrow> [] | Some d \<Rightarrow> d))\<rparr>)"
proof (intro conjI impI)
  let ?cfg1 = "cfg\<lparr>cfg_item_scope :=
     Some (AList.update name \<lparr>scope_schema = schema_arg\<rparr>
             (case cfg_item_scope cfg of None \<Rightarrow> [] | Some d \<Rightarrow> d))\<rparr>"
  assume r: "item_scope name schema_arg cfg = Raised e cfg'"
  then obtain fragment where "item_scope_loop fragment item_scope_targets ?cfg1 = Raised e cfg'"
    by (auto simp: item_scope_def Let_def split: option.splits)
  then have "cfg_item_scope cfg' = cfg_item_scope ?cfg1"
    using item_scope_loop_item_scope [of fragment item_scope_targets ?cfg1 cfg' e] by simp
  then show "\<exists>scopes. cfg_item_scope cfg' = Some scopes \<and>
         map_of scopes name = Some \<lparr>scope_schema = schema_arg\<rparr>"
    by (simp add: update_conv')
next
  show "item_scope name (Some []) cfg =
     Raised AssertionError
       (cfg\<lparr>cfg_item_scope :=
          Some (AList.update name \<lparr>scope_schema = Some []\<rparr>
                  (case cfg_item_scope cfg of None \<Rightarrow> [] | Some d \<Rightarrow> d))\<rparr>)"
    by (simp add: item_scope_def item_scope_targets_def update_resource_schema_def Let_def)
qed

theorem item_scope_recorded_on_failure_witness:
  "item_scope ''planning'' (Some []) example_config =
     Raised AssertionError (example_config\<lparr>cfg_item_scope :=
        Some [(''planning'', \<lparr>scope_schema = Some []\<rparr>)]\<rparr>) \<and>
   (\<exists>scopes. cfg_item_scope (example_config\<lparr>cfg_item_scope :=
        Some [(''planning'', \<lparr>scope_schema = Some []\<rparr>)]\<rparr>) = Some scopes \<and>
      map_of scopes ''planning'' = Some \<lparr>scope_schema = Some []\<rparr>)"
proof -
  have r: "item_scope ''planning'' (Some []) example_config =
     Raised AssertionError (example_config\<lparr>cfg_item_scope :=
        Some [(''planning'', \<lparr>scope_schema = Some []\<rparr>)]\<rparr>)"
    by (simp add: item_scope_def item_scope_targets_def update_resource_schema_def Let_def
        example_config_def)
  from item_scope_recorded_on_failure
    [of "''planning''" "Some []" example_config AssertionError
        "example_config\<lparr>cfg_item_scope := Some [(''planning'', \<lparr>scope_schema = Some []\<rparr>)]\<rparr>"] r
  show ?thesis by (simp add: example_config_def)
qed


section \<open>Properties of the index manager\<close>

lemma init_resource_indexes_done:
  assumes "\<And>s r n ks opts e s'. create_index s r n ks opts = Raised e s' \<Longrightarrow>
             e = KeyError \<or> (e = DuplicateKeyError \<and> ignore_duplicate_keys)"
  shows "\<exists>st'. init_resource_indexes create_index ignore_duplicate_keys resource indexes st = Done st'"
proof (induction indexes arbitrary: st)
  case Nil
  then show ?case by simp
next
  case (Cons nv indexes)
  obtain name "value" where nv: "nv = (name, value)" by (cases nv)
  obtain ks opts where ia: "index_arguments value = (ks, opts)" by (cases "index_arguments value")
  show ?case
  proof (cases "create_index (store st) resource name ks opts")
    case (Done s)
    with Cons.IH [of "st\<lparr>store := s\<rparr>"] nv ia show ?thesis by simp
  next
    case (Raised e s)
    from assms [OF Raised] show ?thesis
    proof
      assume "e = KeyError"
      with Raised nv ia
        Cons.IH [of "st\<lparr>store := s, log := log st @ [LogWarning (''resource config missing for '' @ resource)]\<rparr>"]
      show ?thesis by simp
    next
      assume "e = DuplicateKeyError \<and> ignore_duplicate_keys"
      with Raised nv ia
        Cons.IH [of "st\<lparr>store := s, log := log st @ [LogException DuplicateKeyError]\<rparr>"]
      show ?thesis by (simp add: Let_def)
    qed
  qed
qed

lemma init_domain_indexes_done:
  assumes "\<And>s r n ks opts e s'. create_index s r n ks opts = Raised e s' \<Longrightarrow>
             e = KeyError \<or> (e = DuplicateKeyError \<and> ignore_duplicate_keys)"
  shows "\<exists>st'. init_domain_indexes create_index ignore_duplicate_keys domain st = Done st'"
proof (induction domain arbitrary: st)
  case Nil
  then show ?case by simp
next
  case (Cons rrc domain)
  obtain resource rc where rrc: "rrc = (resource, rc)" by (cases rrc)
  show ?case
  proof (cases "mongo_indexes__init rc")
    case None
    with Cons.IH [of st] rrc show ?thesis by simp
  next
    case (Some mongo_indexes)
    from init_resource_indexes_done [of create_index ignore_duplicate_keys resource mongo_indexes st]
      assms
    obtain st1 where
      "init_resource_indexes create_index ignore_duplicate_keys resource mongo_indexes st = Done st1"
      by blast
    with Some Cons.IH [of st] Cons.IH [of st1] rrc show ?thesis by simp
  qed
qed

text \<open>
  C4. At a declared index whose creation raises \<open>KeyError\<close>, the loop logs the
  warning and goes on with the remaining indexes. At one whose creation raises
  \<open>DuplicateKeyError\<close>, the loop logs the error and then goes on with the remaining
  indexes if duplicate keys are ignored, and raises that error otherwise. So when index
  creation raises nothing but \<open>KeyError\<close>, and \<open>DuplicateKeyError\<close> with
  duplicate keys ignored, \<open>init_indexes\<close> completes without raising.
\<close>

theorem init_indexes_error_asymmetry:
  assumes "index_arguments value = (list_of_keys, index_options)"
  shows
  "(create_index (store st) resource name list_of_keys index_options = Raised KeyError s \<longrightarrow>
      init_resource_indexes create_index ignore_duplicate_keys resource ((name, value) # rest) st =
      init_resource_indexes create_index ignore_duplicate_keys resource rest
        (st\<lparr>store := s,
            log := log st @ [LogWarning (''resource config missing for '' @ resource)]\<rparr>)) \<and>
   (create_index (store st) resource name list_of_keys index_options = Raised DuplicateKeyError s \<longrightarrow>
      init_resource_indexes create_index ignore_duplicate_keys resource ((name, value) # rest) st =
      (if ignore_duplicate_keys
       then init_resource_indexes create_index ignore_duplicate_keys resource rest
              (st\<lparr>store := s, log := log st @ [LogException DuplicateKeyError]\<rparr>)
       else Raised DuplicateKeyError
              (st\<lparr>store := s, log := log st @ [LogException DuplicateKeyError]\<rparr>))) \<and>
   ((\<forall>s r n ks opts e s'. create_index s r n ks opts = Raised e s' \<longrightarrow>
        e = KeyError \<or> (e = DuplicateKeyError \<and> ignore_duplicate_keys)) \<longrightarrow>
      (\<exists>st'. init_indexes create_index ignore_duplicate_keys
               \<lparr>cfg_DOMAIN = Some domain, cfg_VERSIONS = v, cfg_item_scope = sc\<rparr> st = Done st'))"
proof (intro conjI impI)
  assume "create_index (store st) resource name list_of_keys index_options = Raised KeyError s"
  with assms show
    "init_resource_indexes create_index ignore_duplicate_keys resource ((name, value) # rest) st =
      init_resource_indexes create_index ignore_duplicate_keys resource rest
        (st\<lparr>store := s,
            log := log st @ [LogWarning (''resource config missing for '' @ resource)]\<rparr>)"
    by simp
next
  assume "create_index (store st) resource name list_of_keys index_options = Raised DuplicateKeyError s"
  with assms show
    "init_resource_indexes create_index ignore_duplicate_keys resource ((name, value) # rest) st =
      (if ignore_duplicate_keys
       then init_resource_indexes create_index ignore_duplicate_keys resource rest
              (st\<lparr>store := s, log := log st @ [LogException DuplicateKeyError]\<rparr>)
       else Raised DuplicateKeyError
              (st\<lparr>store := s, log := log st @ [LogException DuplicateKeyError]\<rparr>))"
    by (simp add: Let_def)
next
  assume "\<forall>s r n ks opts e s'. create_index s r n ks opts = Raised e s' \<longrightarrow>
        e = KeyError \<or> (e = DuplicateKeyError \<and> ignore_duplicate_keys)"
  then have "\<And>s r n ks opts e s'. create_index s r n ks opts = Raised e s' \<Longrightarrow>
             e = KeyError \<or> (e = DuplicateKeyError \<and> ignore_duplicate_keys)"
    by blast
  from init_domain_indexes_done [OF this, where domain = domain and st = st]
  show "\<exists>st'. init_indexes create_index ignore_duplicate_keys
               \<lparr>cfg_DOMAIN = Some domain, cfg_VERSIONS = v, cfg_item_scope = sc\<rparr> st = Done st'"
    by (simp add: init_indexes_def)
qed

theorem init_indexes_error_asymmetry_witness:
  "init_indexes example_create_index True example_index_config \<lparr>store = [], log = []\<rparr> =
     Done \<lparr>store = [''email_1''],
           log = [LogWarning ''resource config missing for stale'', LogException DuplicateKeyError]\<rparr> \<and>
   init_indexes example_create_index False example_index_config \<lparr>store = [], log = []\<rparr> =
     Raised DuplicateKeyError
       \<lparr>store = [],
        log = [LogWarning ''resource config missing for stale'', LogException DuplicateKeyError]\<rparr> \<and>
   init_resource_indexes example_create_index False ''stale'' [(''name_1'', Keys [(''name'', 1)])]
       \<lparr>store = [], log = []\<rparr> =
     init_resource_indexes example_create_index False ''stale'' []
       \<lparr>store = [], log = [LogWarning ''resource config missing for stale'']\<rparr>"
proof -
  have a: "index_arguments (Keys [(''name'', 1)]) = ([(''name'', 1)], [(''background'', PBool True)])"
    by (simp add: index_arguments_def setdefault_def)
  have k: "example_create_index (store \<lparr>store = [], log = []\<rparr>) ''stale'' ''name_1'' [(''name'', 1)]
             [(''background'', PBool True)] = Raised KeyError []"
    by (simp add: example_create_index_def)
  from init_indexes_error_asymmetry [OF a, of example_create_index "\<lparr>store = [], log = []\<rparr>"
      "''stale''" "''name_1''" "[]" False "[]"] k
  have 3: "init_resource_indexes example_create_index False ''stale'' [(''name_1'', Keys [(''name'', 1)])]
       \<lparr>store = [], log = []\<rparr> =
     init_resource_indexes example_create_index False ''stale'' []
       \<lparr>store = [], log = [LogWarning ''resource config missing for stale'']\<rparr>"
    by simp
  have 1: "init_indexes example_create_index True example_index_config \<lparr>store = [], log = []\<rparr> =
     Done \<lparr>store = [''email_1''],
           log = [LogWarning ''resource config missing for stale'', LogException DuplicateKeyError]\<rparr>"
    by (simp add: init_indexes_def example_index_config_def example_create_index_def
        index_arguments_def setdefault_def Let_def)
  have 2: "init_indexes example_create_index False example_index_config \<lparr>store = [], log = []\<rparr> =
     Raised DuplicateKeyError
       \<lparr>store = [],
        log = [LogWarning ''resource config missing for stale'', LogException DuplicateKeyError]\<rparr>"
    by (simp add: init_indexes_def example_index_config_def example_create_index_def
        index_arguments_def setdefault_def Let_def)
  from 1 2 3 show ?thesis by blast
qed


end
